theory Spec2Isabelle
  imports
    Complex_Main
    "HOL-Library.Char_ord"
    "HOL-Library.List_Lexorder"
    "HOL-Library.Sublist"
begin

section \<open>Data model of \<^verbatim>\<open>src/storage.js\<close>\<close>

text \<open>
  Conventions of the embedding.
  \<^item> A JavaScript number that holds an amount or a balance is a \<^typ>\<open>rat\<close>: the signed
    decimal of the data model, with exact addition. Rounding of IEEE doubles is outside the
    model. The limit of a query is an integer.
  \<^item> A JavaScript string is a \<^typ>\<open>string\<close>, compared with \<open><\<close> and \<open>\<le>\<close> code unit by
    code unit (the lexicographic order of \<^verbatim>\<open>HOL-Library.List_Lexorder\<close> over
    \<^verbatim>\<open>HOL-Library.Char_ord\<close>). Letter case is the ASCII one. Dates are ISO strings
    \<^verbatim>\<open>YYYY-MM-DD\<close>, on which \<^verbatim>\<open>localeCompare\<close> orders as \<open><\<close> does.
  \<^item> An optional field or argument (\<^verbatim>\<open>undefined\<close>, \<^verbatim>\<open>null\<close>) is an \<open>option\<close>; the
    truthiness tests of the source are written out.
  \<^item> The JSON file read by \<^verbatim>\<open>loadConnections\<close> is a value of type \<open>data\<close>, passed to
    every accessor.
  \<^item> The fields \<^verbatim>\<open>id\<close>, \<^verbatim>\<open>name\<close> and \<^verbatim>\<open>type\<close> of the source are \<open>txn_id\<close>, \<open>acc_id\<close>,
    \<open>acc_name\<close> and \<open>acc_type\<close>; the keys of the filters object carry the prefix \<open>f_\<close>.
\<close>

record Transaction =
  txn_id :: string
  date :: string
  amount :: rat
  merchant :: string
  category :: string
  account :: string
  pending :: "bool option"

record Account =
  acc_id :: string
  acc_name :: string
  acc_type :: string
  balance :: "rat option"
  institution :: string

record cache_entry =
  transactions :: "Transaction list"
  cachedAt :: string

record connection =
  accessToken :: string
  itemId :: string
  accounts :: "Account list option"
  connectedAt :: string

record data =
  connections :: "string \<rightharpoonup> connection"
  transactionCache :: "string \<rightharpoonup> cache_entry"

text \<open>The \<^verbatim>\<open>filters\<close> object of \<^verbatim>\<open>getTransactions\<close>; an absent key is \<open>None\<close>.\<close>

record filters =
  f_category :: "string option"
  f_merchant :: "string option"
  f_startDate :: "string option"
  f_endDate :: "string option"
  f_minAmount :: "rat option"
  f_maxAmount :: "rat option"
  f_account :: "string option"
  f_limit :: "int option"

definition no_filters :: filters where
  "no_filters = \<lparr>f_category = None, f_merchant = None, f_startDate = None, f_endDate = None,
     f_minAmount = None, f_maxAmount = None, f_account = None, f_limit = None\<rparr>"

subsection \<open>The canned datasets\<close>

definition txn :: "string \<Rightarrow> string \<Rightarrow> rat \<Rightarrow> string \<Rightarrow> string \<Rightarrow> string \<Rightarrow> Transaction" where
  "txn i d a m c acc =
     \<lparr>txn_id = i, date = d, amount = a, merchant = m, category = c, account = acc, pending = None\<rparr>"

definition MOCK_TRANSACTIONS :: "Transaction list" where
  "MOCK_TRANSACTIONS =
    [txn ''txn_001'' ''2026-01-02'' (-45.67) ''Whole Foods Market'' ''groceries'' ''Chase Checking'',
     txn ''txn_002'' ''2026-01-03'' (-12.50) ''Starbucks'' ''food'' ''Chase Checking'',
     txn ''txn_003'' ''2026-01-05'' 3500.00 ''Employer Direct Deposit'' ''income'' ''Chase Checking'',
     txn ''txn_004'' ''2026-01-06'' (-89.99) ''Amazon'' ''shopping'' ''Amex Platinum'',
     txn ''txn_005'' ''2026-01-07'' (-150.00) ''PG&E'' ''utilities'' ''Chase Checking'',
     txn ''txn_006'' ''2026-01-08'' (-35.00) ''Uber'' ''transport'' ''Amex Platinum'',
     txn ''txn_007'' ''2026-01-10'' (-78.50) ''Trader Joes'' ''groceries'' ''Chase Checking'',
     txn ''txn_008'' ''2026-01-12'' (-25.00) ''Netflix'' ''entertainment'' ''Amex Platinum'',
     txn ''txn_009'' ''2026-01-12'' (-15.99) ''Spotify'' ''entertainment'' ''Amex Platinum'',
     txn ''txn_010'' ''2026-01-15'' (-200.00) ''CVS Pharmacy'' ''health'' ''Chase Checking'',
     txn ''txn_011'' ''2026-01-18'' (-65.00) ''Chipotle'' ''food'' ''Amex Platinum'',
     txn ''txn_012'' ''2026-01-19'' 3500.00 ''Employer Direct Deposit'' ''income'' ''Chase Checking'',
     txn ''txn_013'' ''2026-01-20'' (-1200.00) ''Rent Payment'' ''housing'' ''Chase Checking'',
     txn ''txn_014'' ''2026-01-22'' (-55.00) ''Shell Gas Station'' ''transport'' ''Chase Checking'',
     txn ''txn_015'' ''2026-01-24'' (-125.00) ''Target'' ''shopping'' ''Amex Platinum'',
     txn ''txn_016'' ''2026-01-25'' (-42.00) ''Grubhub'' ''food'' ''Amex Platinum'',
     txn ''txn_017'' ''2026-01-27'' (-95.50) ''Costco'' ''groceries'' ''Chase Checking'',
     txn ''txn_018'' ''2026-01-28'' 500.00 ''Venmo Transfer'' ''transfer'' ''Chase Checking'',
     txn ''txn_019'' ''2026-01-29'' (-180.00) ''United Airlines'' ''travel'' ''Amex Platinum'',
     txn ''txn_020'' ''2026-01-30'' (-28.00) ''Lyft'' ''transport'' ''Amex Platinum'']"

definition MOCK_ACCOUNTS :: "Account list" where
  "MOCK_ACCOUNTS =
    [\<lparr>acc_id = ''acc_001'', acc_name = ''Chase Checking'', acc_type = ''checking'',
      balance = Some 4250.33, institution = ''Chase''\<rparr>,
     \<lparr>acc_id = ''acc_002'', acc_name = ''Amex Platinum'', acc_type = ''credit'',
      balance = Some (-892.48), institution = ''American Express''\<rparr>]"

definition CATEGORIES :: "string list" where
  "CATEGORIES = [''groceries'', ''food'', ''shopping'', ''transport'', ''utilities'',
     ''entertainment'', ''health'', ''housing'', ''travel'', ''income'', ''transfer'', ''other'']"

section \<open>The JavaScript primitives the accessors use\<close>

text \<open>Truthiness of an optional string (\<^verbatim>\<open>undefined\<close>, \<^verbatim>\<open>null\<close> and \<^verbatim>\<open>''\<close> are falsy)
  and of an optional number (\<^verbatim>\<open>undefined\<close> and \<^verbatim>\<open>0\<close> are falsy).\<close>

definition truthy_str :: "string option \<Rightarrow> bool" where
  "truthy_str s = (case s of None \<Rightarrow> False | Some v \<Rightarrow> v \<noteq> [])"

definition truthy_num :: "int option \<Rightarrow> bool" where
  "truthy_num n = (case n of None \<Rightarrow> False | Some v \<Rightarrow> v \<noteq> 0)"

text \<open>\<^verbatim>\<open>String.prototype.toLowerCase\<close>, on ASCII letters.\<close>

definition lower_char :: "char \<Rightarrow> char" where
  "lower_char c =
     (case map_of (zip ''ABCDEFGHIJKLMNOPQRSTUVWXYZ'' ''abcdefghijklmnopqrstuvwxyz'') c of
        Some l \<Rightarrow> l
      | None \<Rightarrow> c)"

definition toLowerCase :: "string \<Rightarrow> string" where
  "toLowerCase s = map lower_char s"

text \<open>\<^verbatim>\<open>String.prototype.includes\<close>: \<open>sub\<close> occurs in \<open>s\<close> at some position.\<close>

fun str_includes :: "string \<Rightarrow> string \<Rightarrow> bool" where
  "str_includes [] sub = (sub = [])"
| "str_includes (c # cs) sub = (prefix sub (c # cs) \<or> str_includes cs sub)"

text \<open>\<^verbatim>\<open>a.localeCompare(b)\<close> on date strings: negative, zero or positive as \<open>a\<close> comes
  before, with or after \<open>b\<close>.\<close>

definition localeCompare :: "string \<Rightarrow> string \<Rightarrow> int" where
  "localeCompare a b = (if a < b then - 1 else if a = b then 0 else 1)"

text \<open>\<^verbatim>\<open>Array.prototype.sort(cmp)\<close>: a stable sort; \<open>x\<close> stays in front of \<open>y\<close> unless
  \<open>cmp x y > 0\<close>.\<close>

fun insort_by :: "('a \<Rightarrow> 'a \<Rightarrow> int) \<Rightarrow> 'a \<Rightarrow> 'a list \<Rightarrow> 'a list" where
  "insort_by cmp x [] = [x]"
| "insort_by cmp x (y # ys) = (if cmp x y \<le> 0 then x # y # ys else y # insort_by cmp x ys)"

fun sort_by :: "('a \<Rightarrow> 'a \<Rightarrow> int) \<Rightarrow> 'a list \<Rightarrow> 'a list" where
  "sort_by cmp [] = []"
| "sort_by cmp (x # xs) = insort_by cmp x (sort_by cmp xs)"

text \<open>\<^verbatim>\<open>xs.slice(0, n)\<close> for an integer \<open>n\<close>: a negative \<open>n\<close> counts from the end.\<close>

definition slice0 :: "'a list \<Rightarrow> int \<Rightarrow> 'a list" where
  "slice0 xs n =
     (let len = int (length xs);
          final = (if n < 0 then max (len + n) 0 else min n len)
      in take (nat final) xs)"

section \<open>Data access functions\<close>

definition getUserConnection :: "data \<Rightarrow> string \<Rightarrow> connection option" where
  "getUserConnection d userId = connections d userId"

definition getCachedTransactions :: "data \<Rightarrow> string \<Rightarrow> cache_entry option" where
  "getCachedTransactions d userId = transactionCache d userId"

definition getTransactions :: "data \<Rightarrow> string option \<Rightarrow> filters \<Rightarrow> Transaction list" where
  "getTransactions d userId flt =
     (let cached = (if truthy_str userId then getCachedTransactions d (the userId) else None);
          t0 = (case cached of Some c \<Rightarrow> transactions c | None \<Rightarrow> MOCK_TRANSACTIONS);
          t1 = (if truthy_str (f_category flt)
                then filter (\<lambda>t. category t = toLowerCase (the (f_category flt))) t0 else t0);
          t2 = (if truthy_str (f_merchant flt)
                then filter (\<lambda>t. str_includes (toLowerCase (merchant t))
                                    (toLowerCase (the (f_merchant flt)))) t1 else t1);
          t3 = (if truthy_str (f_startDate flt)
                then filter (\<lambda>t. date t \<ge> the (f_startDate flt)) t2 else t2);
          t4 = (if truthy_str (f_endDate flt)
                then filter (\<lambda>t. date t \<le> the (f_endDate flt)) t3 else t3);
          t5 = (if f_minAmount flt \<noteq> None
                then filter (\<lambda>t. amount t \<ge> the (f_minAmount flt)) t4 else t4);
          t6 = (if f_maxAmount flt \<noteq> None
                then filter (\<lambda>t. amount t \<le> the (f_maxAmount flt)) t5 else t5);
          t7 = (if truthy_str (f_account flt)
                then filter (\<lambda>t. str_includes (toLowerCase (account t))
                                    (toLowerCase (the (f_account flt)))) t6 else t6);
          t8 = sort_by (\<lambda>a b. localeCompare (date b) (date a)) t7
      in if truthy_num (f_limit flt) then slice0 t8 (the (f_limit flt)) else t8)"

definition getAccounts :: "data \<Rightarrow> string option \<Rightarrow> Account list" where
  "getAccounts d userId =
     (let conn = (if truthy_str userId then getUserConnection d (the userId) else None)
      in case conn of
           Some c \<Rightarrow> (case accounts c of Some as \<Rightarrow> as | None \<Rightarrow> MOCK_ACCOUNTS)
         | None \<Rightarrow> MOCK_ACCOUNTS)"

subsection \<open>The aggregates\<close>

text \<open>One entry \<^verbatim>\<open>{ total, count }\<close> of the spending summary, and the object
  \<^verbatim>\<open>{ total, count, transactions }\<close> returned by \<^verbatim>\<open>getIncomeSummary\<close> and
  \<^verbatim>\<open>getCategorySpending\<close>.\<close>

record summary_entry =
  total :: rat
  count :: nat

record spending = summary_entry +
  r_transactions :: "Transaction list"

text \<open>The \<^verbatim>\<open>summary\<close> object: its keys in insertion order, each with its entry. Category
  names are taken not to clash with the members every JavaScript object inherits.\<close>

type_synonym summary = "(string \<times> summary_entry) list"

definition summary_update :: "summary \<Rightarrow> string \<Rightarrow> (summary_entry \<Rightarrow> summary_entry) \<Rightarrow> summary" where
  "summary_update s k g = map (\<lambda>(k', e). if k' = k then (k', g e) else (k', e)) s"

text \<open>The body of the loop of \<^verbatim>\<open>getSpendingSummary\<close>.\<close>

definition add_to_summary :: "summary \<Rightarrow> Transaction \<Rightarrow> summary" where
  "add_to_summary s t =
     (let s1 = (if map_of s (category t) = None
                then s @ [(category t, \<lparr>total = 0, count = 0\<rparr>)] else s);
          s2 = summary_update s1 (category t) (\<lambda>e. e\<lparr>total := total e + \<bar>amount t\<bar>\<rparr>);
          s3 = summary_update s2 (category t) (\<lambda>e. e\<lparr>count := count e + 1\<rparr>)
      in s3)"

definition getSpendingSummary ::
    "data \<Rightarrow> string option \<Rightarrow> string option \<Rightarrow> string option \<Rightarrow> summary" where
  "getSpendingSummary d userId startDate endDate =
     (let allTransactions = getTransactions d userId no_filters;
          t0 = filter (\<lambda>t. amount t < 0 \<and> category t \<noteq> ''income'' \<and> category t \<noteq> ''transfer'')
                 allTransactions;
          t1 = (if truthy_str startDate then filter (\<lambda>t. date t \<ge> the startDate) t0 else t0);
          t2 = (if truthy_str endDate then filter (\<lambda>t. date t \<le> the endDate) t1 else t1)
      in foldl add_to_summary [] t2)"

text \<open>The object returned by \<^verbatim>\<open>getTotalBalance\<close>.\<close>

record balance_summary =
  "checking" :: rat
  creditOwed :: rat
  netWorth :: rat

text \<open>\<^verbatim>\<open>a.balance || 0\<close>: a missing balance and a balance of 0 both count as 0.\<close>

definition balance_or_0 :: "Account \<Rightarrow> rat" where
  "balance_or_0 a = (case balance a of None \<Rightarrow> 0 | Some b \<Rightarrow> if b = 0 then 0 else b)"

definition getTotalBalance :: "data \<Rightarrow> string option \<Rightarrow> balance_summary" where
  "getTotalBalance d userId =
     (let accs = getAccounts d userId;
          checking' = foldl (\<lambda>sum a. sum + balance_or_0 a) 0
            (filter (\<lambda>a. acc_type a = ''checking'' \<or> acc_type a = ''depository'') accs);
          credit = foldl (\<lambda>sum a. sum + balance_or_0 a) 0
            (filter (\<lambda>a. acc_type a = ''credit'') accs)
      in \<lparr>checking = checking', creditOwed = \<bar>credit\<bar>, netWorth = checking' + credit\<rparr>)"

definition getIncomeSummary ::
    "data \<Rightarrow> string option \<Rightarrow> string option \<Rightarrow> string option \<Rightarrow> spending" where
  "getIncomeSummary d userId startDate endDate =
     (let t0 = filter (\<lambda>t. category t = ''income'' \<or> amount t > 0)
                 (getTransactions d userId no_filters);
          t1 = (if truthy_str startDate then filter (\<lambda>t. date t \<ge> the startDate) t0 else t0);
          t2 = (if truthy_str endDate then filter (\<lambda>t. date t \<le> the endDate) t1 else t1);
          total' = foldl (\<lambda>sum t. sum + \<bar>amount t\<bar>) 0 t2
      in \<lparr>total = total', count = length t2, r_transactions = t2\<rparr>)"

text \<open>\<^verbatim>\<open>getCategorySpending\<close> calls \<^verbatim>\<open>category.toLowerCase()\<close> inside the filter callback:
  with the argument left out, the first transaction visited raises a \<^verbatim>\<open>TypeError\<close>.\<close>

datatype error = TypeError

definition getCategorySpending :: "data \<Rightarrow> string option \<Rightarrow> string option \<Rightarrow> error + spending" where
  "getCategorySpending d userId cat =
     (let allTransactions = getTransactions d userId no_filters
      in case cat of
           None \<Rightarrow> (if allTransactions = []
                    then Inr \<lparr>total = 0, count = 0, r_transactions = []\<rparr>
                    else Inl TypeError)
         | Some c \<Rightarrow>
             (let ts = filter (\<lambda>t. category t = toLowerCase c \<and> amount t < 0) allTransactions;
                  total' = foldl (\<lambda>sum t. sum + \<bar>amount t\<bar>) 0 ts
              in Inr \<lparr>total = total', count = length ts, r_transactions = ts\<rparr>))"

section \<open>The accessors over an explicit object store\<close>

text \<open>
  To speak about copies, arrays and objects get addresses. The store is the list of the
  cells allocated so far, the address of a cell is its index, and a new cell is put at
  the end. An array cell holds the addresses of its elements: two arrays may share their
  element objects. The JSON file stays the value \<open>d\<close>; reading it builds new cells
  (\<^verbatim>\<open>JSON.parse\<close>), and none of the functions below writes it.
\<close>

type_synonym addr = nat

datatype cell = TxnObj Transaction | AccObj Account | Array "addr list"

type_synonym heap = "cell list"

text \<open>The addresses of the module constants \<^verbatim>\<open>MOCK_TRANSACTIONS\<close> and \<^verbatim>\<open>MOCK_ACCOUNTS\<close>.\<close>

record module_consts =
  mock_txns :: addr
  mock_accs :: addr

definition the_txn :: "cell \<Rightarrow> Transaction option" where
  "the_txn c = (case c of TxnObj t \<Rightarrow> Some t | _ \<Rightarrow> None)"

definition the_acc :: "cell \<Rightarrow> Account option" where
  "the_acc c = (case c of AccObj a \<Rightarrow> Some a | _ \<Rightarrow> None)"

definition alloc :: "heap \<Rightarrow> cell \<Rightarrow> addr \<times> heap" where
  "alloc h c = (length h, h @ [c])"

definition deref :: "(cell \<Rightarrow> 'a option) \<Rightarrow> heap \<Rightarrow> addr \<Rightarrow> 'a option" where
  "deref proj h r = (if r < length h then proj (h ! r) else None)"

definition elems :: "heap \<Rightarrow> addr \<Rightarrow> addr list" where
  "elems h a = (if a < length h then (case h ! a of Array rs \<Rightarrow> rs | _ \<Rightarrow> []) else [])"

text \<open>The objects an array holds, read through its element addresses.\<close>

definition contents :: "(cell \<Rightarrow> 'a option) \<Rightarrow> heap \<Rightarrow> addr \<Rightarrow> 'a list" where
  "contents proj h a = List.map_filter (deref proj h) (elems h a)"

text \<open>\<^verbatim>\<open>[...xs]\<close>: a new array with the same elements.\<close>

definition spread :: "heap \<Rightarrow> addr \<Rightarrow> addr \<times> heap" where
  "spread h a = alloc h (Array (elems h a))"

text \<open>\<^verbatim>\<open>xs.filter(p)\<close>: a new array with the elements that satisfy \<open>p\<close>.\<close>

definition filter_h :: "(cell \<Rightarrow> 'a option) \<Rightarrow> heap \<Rightarrow> addr \<Rightarrow> ('a \<Rightarrow> bool) \<Rightarrow> addr \<times> heap" where
  "filter_h proj h a p =
     alloc h (Array (filter (\<lambda>r. case deref proj h r of Some x \<Rightarrow> p x | None \<Rightarrow> False)
                       (elems h a)))"

text \<open>\<^verbatim>\<open>xs.sort(cmp)\<close>: sorts the array in place.\<close>

definition sort_h :: "(cell \<Rightarrow> 'a option) \<Rightarrow> heap \<Rightarrow> addr \<Rightarrow> ('a \<Rightarrow> 'a \<Rightarrow> int) \<Rightarrow> heap" where
  "sort_h proj h a cmp =
     (if a < length h
      then (case h ! a of
              Array rs \<Rightarrow>
                h[a := Array (sort_by
                   (\<lambda>x y. case (deref proj h x, deref proj h y) of
                             (Some s, Some t) \<Rightarrow> cmp s t
                           | _ \<Rightarrow> 0) rs)]
            | _ \<Rightarrow> h)
      else h)"

text \<open>\<^verbatim>\<open>xs.slice(0, n)\<close>: a new array.\<close>

definition slice_h :: "heap \<Rightarrow> addr \<Rightarrow> int \<Rightarrow> addr \<times> heap" where
  "slice_h h a n = alloc h (Array (slice0 (elems h a) n))"

text \<open>\<^verbatim>\<open>JSON.parse\<close> of a stored array: one new object for each element, in order, then the
  new array that holds them.\<close>

definition parse_array :: "('a \<Rightarrow> cell) \<Rightarrow> heap \<Rightarrow> 'a list \<Rightarrow> addr \<times> heap" where
  "parse_array mk h xs =
     alloc (h @ map mk xs) (Array [length h ..< length h + length xs])"

definition getTransactions_h ::
    "data \<Rightarrow> module_consts \<Rightarrow> heap \<Rightarrow> string option \<Rightarrow> filters \<Rightarrow> addr \<times> heap" where
  "getTransactions_h d m h userId flt =
     (let cached = (if truthy_str userId then getCachedTransactions d (the userId) else None)
      in
      case (case cached of
              Some c \<Rightarrow> (case parse_array TxnObj h (transactions c) of (p, hp) \<Rightarrow> spread hp p)
            | None \<Rightarrow> spread h (mock_txns m)) of (a0, h0) \<Rightarrow>
      case (if truthy_str (f_category flt)
            then filter_h the_txn h0 a0 (\<lambda>t. category t = toLowerCase (the (f_category flt)))
            else (a0, h0)) of (a1, h1) \<Rightarrow>
      case (if truthy_str (f_merchant flt)
            then filter_h the_txn h1 a1 (\<lambda>t. str_includes (toLowerCase (merchant t))
                                               (toLowerCase (the (f_merchant flt))))
            else (a1, h1)) of (a2, h2) \<Rightarrow>
      case (if truthy_str (f_startDate flt)
            then filter_h the_txn h2 a2 (\<lambda>t. date t \<ge> the (f_startDate flt))
            else (a2, h2)) of (a3, h3) \<Rightarrow>
      case (if truthy_str (f_endDate flt)
            then filter_h the_txn h3 a3 (\<lambda>t. date t \<le> the (f_endDate flt))
            else (a3, h3)) of (a4, h4) \<Rightarrow>
      case (if f_minAmount flt \<noteq> None
            then filter_h the_txn h4 a4 (\<lambda>t. amount t \<ge> the (f_minAmount flt))
            else (a4, h4)) of (a5, h5) \<Rightarrow>
      case (if f_maxAmount flt \<noteq> None
            then filter_h the_txn h5 a5 (\<lambda>t. amount t \<le> the (f_maxAmount flt))
            else (a5, h5)) of (a6, h6) \<Rightarrow>
      case (if truthy_str (f_account flt)
            then filter_h the_txn h6 a6 (\<lambda>t. str_includes (toLowerCase (account t))
                                               (toLowerCase (the (f_account flt))))
            else (a6, h6)) of (a7, h7) \<Rightarrow>
      (let h8 = sort_h the_txn h7 a7 (\<lambda>a b. localeCompare (date b) (date a))
       in if truthy_num (f_limit flt) then slice_h h8 a7 (the (f_limit flt)) else (a7, h8)))"

definition getAccounts_h ::
    "data \<Rightarrow> module_consts \<Rightarrow> heap \<Rightarrow> string option \<Rightarrow> addr \<times> heap" where
  "getAccounts_h d m h userId =
     (let conn = (if truthy_str userId then getUserConnection d (the userId) else None)
      in case conn of
           Some c \<Rightarrow> (case accounts c of
                        Some as \<Rightarrow> parse_array AccObj h as
                      | None \<Rightarrow> spread h (mock_accs m))
         | None \<Rightarrow> spread h (mock_accs m))"

text \<open>The object \<^verbatim>\<open>{ total, count, transactions }\<close> with its array of transactions in the
  store.\<close>

record spending_h = summary_entry +
  r_array :: addr

definition getSpendingSummary_h ::
    "data \<Rightarrow> module_consts \<Rightarrow> heap \<Rightarrow> string option \<Rightarrow> string option \<Rightarrow> string option \<Rightarrow>
     summary \<times> heap" where
  "getSpendingSummary_h d m h userId startDate endDate =
     (case getTransactions_h d m h userId no_filters of (a, h1) \<Rightarrow>
      case filter_h the_txn h1 a
             (\<lambda>t. amount t < 0 \<and> category t \<noteq> ''income'' \<and> category t \<noteq> ''transfer'')
        of (a0, h2) \<Rightarrow>
      case (if truthy_str startDate
            then filter_h the_txn h2 a0 (\<lambda>t. date t \<ge> the startDate) else (a0, h2))
        of (a1, h3) \<Rightarrow>
      case (if truthy_str endDate
            then filter_h the_txn h3 a1 (\<lambda>t. date t \<le> the endDate) else (a1, h3))
        of (a2, h4) \<Rightarrow>
      (foldl add_to_summary [] (contents the_txn h4 a2), h4))"

definition getTotalBalance_h ::
    "data \<Rightarrow> module_consts \<Rightarrow> heap \<Rightarrow> string option \<Rightarrow> balance_summary \<times> heap" where
  "getTotalBalance_h d m h userId =
     (case getAccounts_h d m h userId of (a, h1) \<Rightarrow>
      case filter_h the_acc h1 a (\<lambda>a. acc_type a = ''checking'' \<or> acc_type a = ''depository'')
        of (a1, h2) \<Rightarrow>
      (let checking' = foldl (\<lambda>sum a. sum + balance_or_0 a) 0 (contents the_acc h2 a1)
       in case filter_h the_acc h2 a (\<lambda>a. acc_type a = ''credit'') of (a2, h3) \<Rightarrow>
          (let credit = foldl (\<lambda>sum a. sum + balance_or_0 a) 0 (contents the_acc h3 a2)
           in (\<lparr>checking = checking', creditOwed = \<bar>credit\<bar>, netWorth = checking' + credit\<rparr>,
               h3))))"

definition getIncomeSummary_h ::
    "data \<Rightarrow> module_consts \<Rightarrow> heap \<Rightarrow> string option \<Rightarrow> string option \<Rightarrow> string option \<Rightarrow>
     spending_h \<times> heap" where
  "getIncomeSummary_h d m h userId startDate endDate =
     (case getTransactions_h d m h userId no_filters of (a, h1) \<Rightarrow>
      case filter_h the_txn h1 a (\<lambda>t. category t = ''income'' \<or> amount t > 0) of (a0, h2) \<Rightarrow>
      case (if truthy_str startDate
            then filter_h the_txn h2 a0 (\<lambda>t. date t \<ge> the startDate) else (a0, h2))
        of (a1, h3) \<Rightarrow>
      case (if truthy_str endDate
            then filter_h the_txn h3 a1 (\<lambda>t. date t \<le> the endDate) else (a1, h3))
        of (a2, h4) \<Rightarrow>
      (let total' = foldl (\<lambda>sum t. sum + \<bar>amount t\<bar>) 0 (contents the_txn h4 a2)
       in (\<lparr>total = total', count = length (elems h4 a2), r_array = a2\<rparr>, h4)))"

definition getCategorySpending_h ::
    "data \<Rightarrow> module_consts \<Rightarrow> heap \<Rightarrow> string option \<Rightarrow> string option \<Rightarrow>
     (error + spending_h) \<times> heap" where
  "getCategorySpending_h d m h userId cat =
     (case getTransactions_h d m h userId no_filters of (a, h1) \<Rightarrow>
      if cat = None \<and> elems h1 a \<noteq> [] then (Inl TypeError, h1)
      else
        case filter_h the_txn h1 a (\<lambda>t. category t = toLowerCase (the cat) \<and> amount t < 0)
          of (a0, h2) \<Rightarrow>
        (let total' = foldl (\<lambda>sum t. sum + \<bar>amount t\<bar>) 0 (contents the_txn h2 a0)
         in (Inr \<lparr>total = total', count = length (elems h2 a0), r_array = a0\<rparr>, h2)))"


section \<open>Notions used to state the properties\<close>

text \<open>The sequence the accessor resolves for a user before any filtering: the cached
  transactions if there are any, the canned dataset otherwise.\<close>

definition storedTransactions :: "data \<Rightarrow> string option \<Rightarrow> Transaction list" where
  "storedTransactions d userId =
     (if truthy_str userId
      then (case transactionCache d (the userId) of
              Some c \<Rightarrow> transactions c
            | None \<Rightarrow> MOCK_TRANSACTIONS)
      else MOCK_TRANSACTIONS)"

text \<open>The conjunction of the criteria that are in force.\<close>

definition matches :: "filters \<Rightarrow> Transaction \<Rightarrow> bool" where
  "matches flt t \<longleftrightarrow>
     (truthy_str (f_category flt) \<longrightarrow> category t = toLowerCase (the (f_category flt))) \<and>
     (truthy_str (f_merchant flt) \<longrightarrow>
        str_includes (toLowerCase (merchant t)) (toLowerCase (the (f_merchant flt)))) \<and>
     (truthy_str (f_startDate flt) \<longrightarrow> the (f_startDate flt) \<le> date t) \<and>
     (truthy_str (f_endDate flt) \<longrightarrow> date t \<le> the (f_endDate flt)) \<and>
     (f_minAmount flt \<noteq> None \<longrightarrow> the (f_minAmount flt) \<le> amount t) \<and>
     (f_maxAmount flt \<noteq> None \<longrightarrow> amount t \<le> the (f_maxAmount flt)) \<and>
     (truthy_str (f_account flt) \<longrightarrow>
        str_includes (toLowerCase (account t)) (toLowerCase (the (f_account flt))))"

definition dateDesc :: "Transaction \<Rightarrow> Transaction \<Rightarrow> int" where
  "dateDesc a b = localeCompare (date b) (date a)"

text \<open>The transactions that count as spending within the date bounds; a bound that is
  absent, or the empty string (which is no date), does not restrict.\<close>

definition within_bounds :: "string option \<Rightarrow> string option \<Rightarrow> string \<Rightarrow> bool" where
  "within_bounds startDate endDate dt \<longleftrightarrow>
     (case startDate of None \<Rightarrow> True | Some s \<Rightarrow> s = [] \<or> s \<le> dt) \<and>
     (case endDate of None \<Rightarrow> True | Some e \<Rightarrow> e = [] \<or> dt \<le> e)"

definition is_spending :: "Transaction \<Rightarrow> bool" where
  "is_spending t \<longleftrightarrow> amount t < 0 \<and> category t \<noteq> ''income'' \<and> category t \<noteq> ''transfer''"


text \<open>Sum of the absolute amounts, and number, of the transactions of one category.\<close>

definition cat_total :: "string \<Rightarrow> Transaction list \<Rightarrow> rat" where
  "cat_total k ts = sum_list (map (\<lambda>t. \<bar>amount t\<bar>) (filter (\<lambda>t. category t = k) ts))"

definition cat_count :: "string \<Rightarrow> Transaction list \<Rightarrow> nat" where
  "cat_count k ts = length (filter (\<lambda>t. category t = k) ts)"

definition empty_spending :: spending where
  "empty_spending = \<lparr>total = 0, count = 0, r_transactions = []\<rparr>"


text \<open>The array at \<open>a\<close> holds objects with the values \<open>xs\<close>, in this order.\<close>

definition holds :: "(cell \<Rightarrow> 'a option) \<Rightarrow> heap \<Rightarrow> addr \<Rightarrow> 'a list \<Rightarrow> bool" where
  "holds proj h a xs \<longleftrightarrow>
     a < length h \<and> map (deref proj h) (elems h a) = map Some xs \<and>
     (case h ! a of Array rs \<Rightarrow> True | _ \<Rightarrow> False)"

subsection \<open>Example inputs\<close>

definition empty_data :: data where
  "empty_data = \<lparr>connections = Map.empty, transactionCache = Map.empty\<rparr>"

definition cached_data :: "string \<Rightarrow> Transaction list \<Rightarrow> data" where
  "cached_data u ts =
     \<lparr>connections = Map.empty,
      transactionCache = [u \<mapsto> \<lparr>transactions = ts, cachedAt = ''2026-01-31T00:00:00.000Z''\<rparr>]\<rparr>"



section \<open>Basic facts\<close>

lemma cond_filter: "(if c then filter P xs else xs) = filter (\<lambda>t. c \<longrightarrow> P t) xs"
  by simp

lemma getTransactions_sorted_filter:
  "getTransactions d userId flt =
     (let r = sort_by dateDesc (filter (matches flt) (storedTransactions d userId))
      in if truthy_num (f_limit flt) then slice0 r (the (f_limit flt)) else r)"
proof -
  have src: "(case (if truthy_str userId then getCachedTransactions d (the userId) else None) of
               Some c \<Rightarrow> transactions c | None \<Rightarrow> MOCK_TRANSACTIONS) = storedTransactions d userId"
    by (simp add: storedTransactions_def getCachedTransactions_def)
  have cmp: "(\<lambda>a b. localeCompare (date b) (date a)) = dateDesc"
    by (simp add: dateDesc_def fun_eq_iff)
  have chain: "filter (\<lambda>t. ((((((c1 t \<and> c2 t) \<and> c3 t) \<and> c4 t) \<and> c5 t) \<and> c6 t) \<and> c7 t)) xs =
      filter (\<lambda>t. c1 t \<and> c2 t \<and> c3 t \<and> c4 t \<and> c5 t \<and> c6 t \<and> c7 t) xs"
    for c1 c2 c3 c4 c5 c6 c7 :: "Transaction \<Rightarrow> bool" and xs
    by simp
  have m: "matches flt = (\<lambda>t.
       (truthy_str (f_category flt) \<longrightarrow> category t = toLowerCase (the (f_category flt))) \<and>
       (truthy_str (f_merchant flt) \<longrightarrow>
          str_includes (toLowerCase (merchant t)) (toLowerCase (the (f_merchant flt)))) \<and>
       (truthy_str (f_startDate flt) \<longrightarrow> the (f_startDate flt) \<le> date t) \<and>
       (truthy_str (f_endDate flt) \<longrightarrow> date t \<le> the (f_endDate flt)) \<and>
       (f_minAmount flt \<noteq> None \<longrightarrow> the (f_minAmount flt) \<le> amount t) \<and>
       (f_maxAmount flt \<noteq> None \<longrightarrow> amount t \<le> the (f_maxAmount flt)) \<and>
       (truthy_str (f_account flt) \<longrightarrow>
          str_includes (toLowerCase (account t)) (toLowerCase (the (f_account flt)))))"
    by (simp add: matches_def fun_eq_iff)
  show ?thesis
    unfolding getTransactions_def Let_def src cmp cond_filter filter_filter chain
    unfolding m [symmetric]
    by (rule refl)
qed

lemma set_insort_by: "set (insort_by cmp x xs) = insert x (set xs)"
  by (induction xs) auto

lemma set_sort_by: "set (sort_by cmp xs) = set xs"
  by (induction xs) (auto simp: set_insort_by)

lemma length_insort_by: "length (insort_by cmp x xs) = Suc (length xs)"
  by (induction xs) auto

lemma length_sort_by: "length (sort_by cmp xs) = length xs"
  by (induction xs) (auto simp: length_insort_by)

lemma dateDesc_le0: "dateDesc a b \<le> 0 \<longleftrightarrow> date b \<le> date a"
  by (auto simp: dateDesc_def localeCompare_def)

lemma sorted_insort_dateDesc:
  "sorted_wrt (\<lambda>a b. date b \<le> date a) xs \<Longrightarrow>
   sorted_wrt (\<lambda>a b. date b \<le> date a) (insort_by dateDesc x xs)"
proof (induction xs)
  case Nil
  then show ?case by simp
next
  case (Cons y ys)
  show ?case
  proof (cases "dateDesc x y \<le> 0")
    case True
    then have "date y \<le> date x" by (simp add: dateDesc_le0)
    with Cons.prems True show ?thesis by (auto intro: order_trans)
  next
    case False
    then have "date x \<le> date y" by (simp add: dateDesc_le0)
    with Cons False show ?thesis by (auto simp: set_insort_by)
  qed
qed

lemma sorted_sort_by_dateDesc: "sorted_wrt (\<lambda>a b. date b \<le> date a) (sort_by dateDesc xs)"
  by (induction xs) (auto intro: sorted_insort_dateDesc)

section \<open>Limit\<close>


lemma matches_limit_irrelevant [simp]: "matches (flt\<lparr>f_limit := l\<rparr>) = matches flt"
  by (simp add: matches_def fun_eq_iff)

lemma getTransactions_no_limit:
  "\<not> truthy_num (f_limit flt) \<Longrightarrow>
   getTransactions d userId flt = sort_by dateDesc (filter (matches flt) (storedTransactions d userId))"
  by (simp add: getTransactions_sorted_filter)

lemma getTransactions_limit:
  "truthy_num (f_limit flt) \<Longrightarrow>
   getTransactions d userId flt =
     slice0 (sort_by dateDesc (filter (matches flt) (storedTransactions d userId))) (the (f_limit flt))"
  by (simp add: getTransactions_sorted_filter)

lemma slice0_nat: "slice0 xs (int n) = take n xs"
  by (simp add: slice0_def min_def)

lemma storedTransactions_None [simp]: "storedTransactions d None = MOCK_TRANSACTIONS"
  by (simp add: storedTransactions_def truthy_str_def)

lemma matches_no_filters [simp]: "matches no_filters t"
  by (simp add: matches_def no_filters_def truthy_str_def)

lemma length_MOCK_TRANSACTIONS: "length MOCK_TRANSACTIONS = 20"
  by (simp add: MOCK_TRANSACTIONS_def)

lemma length_getTransactions_canned:
  "length (getTransactions d None (no_filters\<lparr>f_limit := None\<rparr>)) = 20"
  by (simp add: getTransactions_no_limit truthy_num_def length_sort_by length_MOCK_TRANSACTIONS)


text \<open>
  C3 as stated fails at \<open>N = 0\<close>: on the canned dataset the unlimited result has 20 elements,
  and so has the result for limit 0.
\<close>

theorem limit_zero_counterexample:
  "(0::nat) \<le> length (getTransactions empty_data None (no_filters\<lparr>f_limit := None\<rparr>)) \<and>
   length (getTransactions empty_data None (no_filters\<lparr>f_limit := Some (int 0)\<rparr>)) \<noteq> 0"
  by (simp add: getTransactions_no_limit truthy_num_def length_sort_by length_MOCK_TRANSACTIONS)

text \<open>
  C3 (amended). For every \<open>N \<ge> 1\<close> that does not exceed the size of the filtered and sorted
  result, \<^verbatim>\<open>getTransactions\<close> with limit \<open>N\<close> returns exactly \<open>N\<close> elements: the first \<open>N\<close>
  of the result without limit, which is the stable date-descending sort of the filtered
  sequence. Truncation comes after sorting.
\<close>

theorem limit_keeps_first_N:
  assumes "1 \<le> N"
    and "N \<le> length (getTransactions d userId (flt\<lparr>f_limit := None\<rparr>))"
  shows "getTransactions d userId (flt\<lparr>f_limit := Some (int N)\<rparr>) =
           take N (getTransactions d userId (flt\<lparr>f_limit := None\<rparr>)) \<and>
         length (getTransactions d userId (flt\<lparr>f_limit := Some (int N)\<rparr>)) = N \<and>
         getTransactions d userId (flt\<lparr>f_limit := None\<rparr>) =
           sort_by dateDesc (filter (matches flt) (storedTransactions d userId)) \<and>
         sorted_wrt (\<lambda>a b. date b \<le> date a) (getTransactions d userId (flt\<lparr>f_limit := None\<rparr>))"
proof -
  let ?all = "getTransactions d userId (flt\<lparr>f_limit := None\<rparr>)"
  have all: "?all = sort_by dateDesc (filter (matches flt) (storedTransactions d userId))"
    by (simp add: getTransactions_no_limit truthy_num_def)
  have "truthy_num (f_limit (flt\<lparr>f_limit := Some (int N)\<rparr>))"
    using assms(1) by (simp add: truthy_num_def)
  then have lim: "getTransactions d userId (flt\<lparr>f_limit := Some (int N)\<rparr>) = take N ?all"
    by (simp add: getTransactions_limit slice0_nat all)
  have len: "length (take N ?all) = N"
    using assms(2) by simp
  have srt: "sorted_wrt (\<lambda>a b. date b \<le> date a) ?all"
    unfolding all by (rule sorted_sort_by_dateDesc)
  from lim len all srt show ?thesis by simp
qed

theorem limit_keeps_first_N_witness:
  "(1::nat) \<le> 3 \<and>
   3 \<le> length (getTransactions empty_data None (no_filters\<lparr>f_limit := None\<rparr>)) \<and>
   getTransactions empty_data None (no_filters\<lparr>f_limit := Some (int 3)\<rparr>) =
     take 3 (getTransactions empty_data None (no_filters\<lparr>f_limit := None\<rparr>)) \<and>
   length (getTransactions empty_data None (no_filters\<lparr>f_limit := Some (int 3)\<rparr>)) = 3"
proof -
  have h1: "(1::nat) \<le> 3" by simp
  have h2: "3 \<le> length (getTransactions empty_data None (no_filters\<lparr>f_limit := None\<rparr>))"
    by (simp add: length_getTransactions_canned)
  show ?thesis
    using h1 h2 limit_keeps_first_N [OF h1 h2] by simp
qed

section \<open>Filter criteria\<close>

text \<open>
  C7. With no limit in force, the set of transactions selected by all criteria of one
  \<^verbatim>\<open>getTransactions\<close> call is the intersection of the sets selected by each criterion
  (category, merchant, startDate, endDate, minAmount, maxAmount, account) alone.
\<close>

theorem criteria_compose_conjunctively:
  assumes "\<not> truthy_num (f_limit flt)"
  shows "set (getTransactions d userId flt) =
     set (getTransactions d userId (no_filters\<lparr>f_category := f_category flt\<rparr>)) \<inter>
     set (getTransactions d userId (no_filters\<lparr>f_merchant := f_merchant flt\<rparr>)) \<inter>
     set (getTransactions d userId (no_filters\<lparr>f_startDate := f_startDate flt\<rparr>)) \<inter>
     set (getTransactions d userId (no_filters\<lparr>f_endDate := f_endDate flt\<rparr>)) \<inter>
     set (getTransactions d userId (no_filters\<lparr>f_minAmount := f_minAmount flt\<rparr>)) \<inter>
     set (getTransactions d userId (no_filters\<lparr>f_maxAmount := f_maxAmount flt\<rparr>)) \<inter>
     set (getTransactions d userId (no_filters\<lparr>f_account := f_account flt\<rparr>))"
proof -
  have single: "\<not> truthy_num (f_limit (no_filters\<lparr>f_category := a\<rparr>))"
    "\<not> truthy_num (f_limit (no_filters\<lparr>f_merchant := a\<rparr>))"
    "\<not> truthy_num (f_limit (no_filters\<lparr>f_startDate := a\<rparr>))"
    "\<not> truthy_num (f_limit (no_filters\<lparr>f_endDate := a\<rparr>))"
    "\<not> truthy_num (f_limit (no_filters\<lparr>f_minAmount := b\<rparr>))"
    "\<not> truthy_num (f_limit (no_filters\<lparr>f_maxAmount := b\<rparr>))"
    "\<not> truthy_num (f_limit (no_filters\<lparr>f_account := a\<rparr>))" for a b
    by (simp_all add: no_filters_def truthy_num_def)
  have m: "matches flt t \<longleftrightarrow>
      matches (no_filters\<lparr>f_category := f_category flt\<rparr>) t \<and>
      matches (no_filters\<lparr>f_merchant := f_merchant flt\<rparr>) t \<and>
      matches (no_filters\<lparr>f_startDate := f_startDate flt\<rparr>) t \<and>
      matches (no_filters\<lparr>f_endDate := f_endDate flt\<rparr>) t \<and>
      matches (no_filters\<lparr>f_minAmount := f_minAmount flt\<rparr>) t \<and>
      matches (no_filters\<lparr>f_maxAmount := f_maxAmount flt\<rparr>) t \<and>
      matches (no_filters\<lparr>f_account := f_account flt\<rparr>) t" for t
    by (simp add: matches_def no_filters_def truthy_str_def)
  show ?thesis
    unfolding getTransactions_no_limit [OF assms] getTransactions_no_limit [OF single(1)]
      getTransactions_no_limit [OF single(2)] getTransactions_no_limit [OF single(3)]
      getTransactions_no_limit [OF single(4)] getTransactions_no_limit [OF single(5)]
      getTransactions_no_limit [OF single(6)] getTransactions_no_limit [OF single(7)]
      set_sort_by
    by (auto simp: m)
qed

theorem criteria_compose_conjunctively_witness:
  "\<not> truthy_num (f_limit (no_filters\<lparr>f_category := Some ''groceries'', f_minAmount := Some (-80)\<rparr>)) \<and>
   set (getTransactions empty_data None
          (no_filters\<lparr>f_category := Some ''groceries'', f_minAmount := Some (-80)\<rparr>)) =
     set (getTransactions empty_data None (no_filters\<lparr>f_category := Some ''groceries''\<rparr>)) \<inter>
     set (getTransactions empty_data None (no_filters\<lparr>f_merchant := None\<rparr>)) \<inter>
     set (getTransactions empty_data None (no_filters\<lparr>f_startDate := None\<rparr>)) \<inter>
     set (getTransactions empty_data None (no_filters\<lparr>f_endDate := None\<rparr>)) \<inter>
     set (getTransactions empty_data None (no_filters\<lparr>f_minAmount := Some (-80)\<rparr>)) \<inter>
     set (getTransactions empty_data None (no_filters\<lparr>f_maxAmount := None\<rparr>)) \<inter>
     set (getTransactions empty_data None (no_filters\<lparr>f_account := None\<rparr>))"
proof -
  let ?f = "no_filters\<lparr>f_category := Some ''groceries'', f_minAmount := Some (-80)\<rparr>"
  have h: "\<not> truthy_num (f_limit ?f)"
    by (simp add: no_filters_def truthy_num_def)
  have f: "f_category ?f = Some ''groceries''" "f_merchant ?f = None" "f_startDate ?f = None"
    "f_endDate ?f = None" "f_minAmount ?f = Some (-80)" "f_maxAmount ?f = None"
    "f_account ?f = None"
    by (simp_all add: no_filters_def)
  show ?thesis
    using h criteria_compose_conjunctively [OF h, of empty_data None] unfolding f by simp
qed

section \<open>Balances\<close>

lemma foldl_plus_sum_list:
  "foldl (\<lambda>sum a. sum + f a) (z::rat) xs = z + sum_list (map f xs)"
  by (induction xs arbitrary: z) (auto simp: algebra_simps)






section \<open>Spending summary\<close>

lemma map_fst_summary_update [simp]: "map fst (summary_update s k g) = map fst s"
  by (induction s) (auto simp: summary_update_def)

lemma map_of_summary_update:
  "map_of (summary_update s k g) k' = (if k' = k then map_option g (map_of s k) else map_of s k')"
  by (induction s) (auto simp: summary_update_def)

lemma map_of_None_iff: "map_of s k = None \<longleftrightarrow> k \<notin> set (map fst s)"
  by (simp add: map_of_eq_None_iff)

lemma distinct_add_to_summary:
  "distinct (map fst s) \<Longrightarrow> distinct (map fst (add_to_summary s t))"
  by (simp add: add_to_summary_def Let_def map_of_None_iff)

lemma distinct_foldl_summary:
  "distinct (map fst s) \<Longrightarrow> distinct (map fst (foldl add_to_summary s ts))"
  by (induction ts arbitrary: s) (auto simp: distinct_add_to_summary)

lemma map_of_add_to_summary:
  "map_of (add_to_summary s t) k =
     (if k = category t
      then Some (case map_of s k of
                   None \<Rightarrow> \<lparr>total = \<bar>amount t\<bar>, count = 1\<rparr>
                 | Some e \<Rightarrow> \<lparr>total = total e + \<bar>amount t\<bar>, count = count e + 1\<rparr>)
      else map_of s k)"
  by (auto simp: add_to_summary_def Let_def map_of_summary_update map_add_def
      split: option.splits)

lemma map_of_foldl_summary:
  "map_of (foldl add_to_summary s ts) k =
     (case map_of s k of
        None \<Rightarrow> (if k \<in> category ` set ts
                 then Some \<lparr>total = cat_total k ts, count = cat_count k ts\<rparr> else None)
      | Some e \<Rightarrow> Some \<lparr>total = total e + cat_total k ts, count = count e + cat_count k ts\<rparr>)"
proof (induction ts arbitrary: s)
  case Nil
  then show ?case by (simp add: cat_total_def cat_count_def split: option.splits)
next
  case (Cons t ts)
  show ?case
    by (simp add: Cons.IH map_of_add_to_summary cat_total_def cat_count_def
        split: option.splits)
qed

lemma getTransactions_no_filters:
  "getTransactions d userId no_filters = sort_by dateDesc (storedTransactions d userId)"
  by (simp add: getTransactions_no_limit no_filters_def truthy_num_def matches_def truthy_str_def)

lemma bound_filters:
  "(if truthy_str endDate then filter (\<lambda>t. date t \<le> the endDate)
      (if truthy_str startDate then filter (\<lambda>t. the startDate \<le> date t) xs else xs)
    else (if truthy_str startDate then filter (\<lambda>t. the startDate \<le> date t) xs else xs)) =
   filter (\<lambda>t. within_bounds startDate endDate (date t)) xs"
  by (auto simp: within_bounds_def truthy_str_def split: option.splits intro: filter_cong)

lemma getSpendingSummary_foldl:
  "getSpendingSummary d userId startDate endDate =
     foldl add_to_summary []
       (filter (\<lambda>t. within_bounds startDate endDate (date t))
          (filter is_spending (sort_by dateDesc (storedTransactions d userId))))"
proof -
  have sp: "(\<lambda>t. amount t < 0 \<and> category t \<noteq> ''income'' \<and> category t \<noteq> ''transfer'') = is_spending"
    by (simp add: is_spending_def fun_eq_iff)
  show ?thesis
    unfolding getSpendingSummary_def Let_def getTransactions_no_filters sp bound_filters
    by (rule refl)
qed









section \<open>Totals of the spending summary\<close>


lemma storedTransactions_cached:
  "u \<noteq> [] \<Longrightarrow> storedTransactions (cached_data u ts) (Some u) = ts"
  by (simp add: storedTransactions_def cached_data_def truthy_str_def)


lemma map_of_getSpendingSummary:
  "map_of (getSpendingSummary d userId startDate endDate) k =
     (let ts = filter (\<lambda>t. within_bounds startDate endDate (date t))
                 (filter is_spending (sort_by dateDesc (storedTransactions d userId)))
      in if k \<in> category ` set ts
         then Some \<lparr>total = cat_total k ts, count = cat_count k ts\<rparr> else None)"
  by (simp add: getSpendingSummary_foldl map_of_foldl_summary Let_def)

lemma cat_count_pos: "t \<in> set ts \<Longrightarrow> 1 \<le> cat_count (category t) ts"
proof -
  assume "t \<in> set ts"
  then have "t \<in> set (filter (\<lambda>x. category x = category t) ts)" by simp
  then have "0 < length (filter (\<lambda>x. category x = category t) ts)"
    by (rule length_pos_if_in_set)
  then have "Suc 0 \<le> length (filter (\<lambda>x. category x = category t) ts)"
    by (rule Suc_leI)
  then show ?thesis
    unfolding cat_count_def by (simp only: One_nat_def)
qed

text \<open>
  C6. For every stored transaction sequence and any date bounds, the mapping returned by
  \<^verbatim>\<open>getSpendingSummary\<close> has neither the key \<open>income\<close> nor the key \<open>transfer\<close>; its keys
  are exactly the categories of the eligible transactions within the bounds, and every
  entry present has a count of at least 1.
\<close>

theorem spending_summary_keys:
  "''income'' \<notin> set (map fst (getSpendingSummary d userId startDate endDate)) \<and>
   ''transfer'' \<notin> set (map fst (getSpendingSummary d userId startDate endDate)) \<and>
   set (map fst (getSpendingSummary d userId startDate endDate)) =
     category ` {t \<in> set (storedTransactions d userId).
                  amount t < 0 \<and> category t \<noteq> ''income'' \<and> category t \<noteq> ''transfer'' \<and>
                  within_bounds startDate endDate (date t)} \<and>
   (\<forall>(k, e) \<in> set (getSpendingSummary d userId startDate endDate). 1 \<le> count e)"
proof -
  let ?S = "getSpendingSummary d userId startDate endDate"
  let ?ts = "filter (\<lambda>t. within_bounds startDate endDate (date t))
               (filter is_spending (sort_by dateDesc (storedTransactions d userId)))"
  have dist: "distinct (map fst ?S)"
    by (simp add: getSpendingSummary_foldl distinct_foldl_summary)
  have keys: "set (map fst ?S) = category ` set ?ts"
  proof -
    have "k \<in> set (map fst ?S) \<longleftrightarrow> k \<in> category ` set ?ts" for k
    proof -
      have "k \<in> set (map fst ?S) \<longleftrightarrow> map_of ?S k \<noteq> None"
        by (simp add: map_of_None_iff)
      also have "\<dots> \<longleftrightarrow> k \<in> category ` set ?ts"
        by (simp add: map_of_getSpendingSummary Let_def)
      finally show ?thesis .
    qed
    then show ?thesis by blast
  qed
  have elig: "set ?ts = {t \<in> set (storedTransactions d userId).
      amount t < 0 \<and> category t \<noteq> ''income'' \<and> category t \<noteq> ''transfer'' \<and>
      within_bounds startDate endDate (date t)}"
    by (auto simp: set_sort_by is_spending_def)
  have cnt: "1 \<le> count e" if "(k, e) \<in> set ?S" for k e
  proof -
    from that dist have "map_of ?S k = Some e" by simp
    then have k: "k \<in> category ` set ?ts"
      and e: "e = \<lparr>total = cat_total k ?ts, count = cat_count k ?ts\<rparr>"
      by (auto simp: map_of_getSpendingSummary Let_def split: if_splits)
    from k obtain t where "t \<in> set ?ts" "k = category t" by blast
    then have "1 \<le> cat_count k ?ts" using cat_count_pos by blast
    with e show ?thesis by simp
  qed
  have "''income'' \<notin> set (map fst ?S)" "''transfer'' \<notin> set (map fst ?S)"
    unfolding keys elig by auto
  with keys elig cnt show ?thesis by blast
qed


theorem spending_summary_keys_witness:
  "(''shopping'', \<lparr>total = 17.25, count = 2\<rparr>) \<in> set (getSpendingSummary
      (cached_data ''u''
         [txn ''a'' ''2026-02-01'' (-10.25) ''Shop'' ''shopping'' ''acc'',
          txn ''b'' ''2026-02-02'' 900 ''Employer'' ''income'' ''acc'',
          txn ''d'' ''2026-02-09'' (-7) ''Market'' ''shopping'' ''acc''])
      (Some ''u'') None None) \<and>
   1 \<le> count \<lparr>total = 17.25, count = 2\<rparr>"
proof -
  let ?d = "cached_data ''u''
         [txn ''a'' ''2026-02-01'' (-10.25) ''Shop'' ''shopping'' ''acc'',
          txn ''b'' ''2026-02-02'' 900 ''Employer'' ''income'' ''acc'',
          txn ''d'' ''2026-02-09'' (-7) ''Market'' ''shopping'' ''acc'']"
  have S: "getSpendingSummary ?d (Some ''u'') None None =
      [(''shopping'', \<lparr>total = 17.25, count = 2\<rparr>)]"
    by (simp add: getSpendingSummary_foldl storedTransactions_cached txn_def within_bounds_def
        is_spending_def dateDesc_def localeCompare_def add_to_summary_def summary_update_def)
  then have m: "(''shopping'', \<lparr>total = 17.25, count = 2\<rparr>) \<in>
      set (getSpendingSummary ?d (Some ''u'') None None)"
    by simp
  from spending_summary_keys [of ?d "Some ''u''" None None] m show ?thesis
    by blast
qed

section \<open>Empty results and unknown categories\<close>

lemma getIncomeSummary_filter:
  "getIncomeSummary d userId startDate endDate =
     (let ts = filter (\<lambda>t. within_bounds startDate endDate (date t))
                 (filter (\<lambda>t. category t = ''income'' \<or> 0 < amount t)
                    (sort_by dateDesc (storedTransactions d userId)))
      in \<lparr>total = sum_list (map (\<lambda>t. \<bar>amount t\<bar>) ts), count = length ts, r_transactions = ts\<rparr>)"
  unfolding getIncomeSummary_def Let_def getTransactions_no_filters bound_filters
    foldl_plus_sum_list
  by simp

lemma getCategorySpending_filter:
  "getCategorySpending d userId (Some c) =
     (let ts = filter (\<lambda>t. category t = toLowerCase c \<and> amount t < 0)
                 (sort_by dateDesc (storedTransactions d userId))
      in Inr \<lparr>total = sum_list (map (\<lambda>t. \<bar>amount t\<bar>) ts), count = length ts,
              r_transactions = ts\<rparr>)"
  unfolding getCategorySpending_def Let_def getTransactions_no_filters foldl_plus_sum_list
  by simp

lemma filter_sort_by_empty:
  "\<forall>t \<in> set xs. \<not> P t \<Longrightarrow> filter P (sort_by cmp xs) = []"
  by (simp add: filter_empty_conv set_sort_by)

text \<open>
  C9. \<^verbatim>\<open>getSpendingSummary\<close> and \<^verbatim>\<open>getIncomeSummary\<close> have no failing branch, and
  \<^verbatim>\<open>getCategorySpending\<close> returns a result for every category string, in or out of the
  enumeration. When no stored transaction is eligible the spending summary is the empty
  mapping, and the income summary and the category spending are total 0, count 0 and an
  empty transaction list; a category that no stored transaction carries yields this
  empty result.
\<close>

theorem empty_results_never_fail:
  "(\<exists>r. getCategorySpending d userId (Some c) = Inr r) \<and>
   ((\<forall>t \<in> set (storedTransactions d userId). \<not> (category t = toLowerCase c \<and> amount t < 0)) \<longrightarrow>
      getCategorySpending d userId (Some c) = Inr empty_spending) \<and>
   (toLowerCase c \<notin> category ` set (storedTransactions d userId) \<longrightarrow>
      getCategorySpending d userId (Some c) = Inr empty_spending) \<and>
   ((\<forall>t \<in> set (storedTransactions d userId).
       \<not> ((category t = ''income'' \<or> 0 < amount t) \<and> within_bounds startDate endDate (date t))) \<longrightarrow>
      getIncomeSummary d userId startDate endDate = empty_spending) \<and>
   ((\<forall>t \<in> set (storedTransactions d userId).
       \<not> (amount t < 0 \<and> category t \<noteq> ''income'' \<and> category t \<noteq> ''transfer'' \<and>
          within_bounds startDate endDate (date t))) \<longrightarrow>
      getSpendingSummary d userId startDate endDate = [])"
proof -
  let ?st = "storedTransactions d userId"
  have a: "\<exists>r. getCategorySpending d userId (Some c) = Inr r"
    by (simp add: getCategorySpending_filter Let_def)
  have b: "getCategorySpending d userId (Some c) = Inr empty_spending"
    if "\<forall>t \<in> set ?st. \<not> (category t = toLowerCase c \<and> amount t < 0)"
    using filter_sort_by_empty [OF that]
    by (simp add: getCategorySpending_filter Let_def empty_spending_def)
  have c: "getCategorySpending d userId (Some c) = Inr empty_spending"
    if "toLowerCase c \<notin> category ` set ?st"
  proof (rule b)
    from that show "\<forall>t \<in> set ?st. \<not> (category t = toLowerCase c \<and> amount t < 0)"
      by (metis imageI)
  qed
  have i: "getIncomeSummary d userId startDate endDate = empty_spending"
    if "\<forall>t \<in> set ?st. \<not> ((category t = ''income'' \<or> 0 < amount t) \<and>
          within_bounds startDate endDate (date t))"
  proof -
    have "filter (\<lambda>t. (category t = ''income'' \<or> 0 < amount t) \<and>
        within_bounds startDate endDate (date t)) (sort_by dateDesc ?st) = []"
      using that by (rule filter_sort_by_empty)
    then show ?thesis
      by (simp add: getIncomeSummary_filter Let_def empty_spending_def)
  qed
  have s: "getSpendingSummary d userId startDate endDate = []"
    if "\<forall>t \<in> set ?st. \<not> (amount t < 0 \<and> category t \<noteq> ''income'' \<and> category t \<noteq> ''transfer'' \<and>
          within_bounds startDate endDate (date t))"
  proof -
    have "filter (\<lambda>t. is_spending t \<and> within_bounds startDate endDate (date t))
        (sort_by dateDesc ?st) = []"
      using that by (intro filter_sort_by_empty) (simp add: is_spending_def)
    then show ?thesis
      by (simp add: getSpendingSummary_foldl)
  qed
  from a b c i s show ?thesis by blast
qed

lemma toLowerCase_crypto: "toLowerCase ''Crypto'' = ''crypto''"
  by (simp add: toLowerCase_def lower_char_def)

theorem empty_results_never_fail_witness:
  "toLowerCase ''Crypto'' \<notin> category ` set (storedTransactions empty_data None) \<and>
   getCategorySpending empty_data None (Some ''Crypto'') = Inr empty_spending \<and>
   getIncomeSummary empty_data None (Some ''2027-01-01'') None = empty_spending \<and>
   getSpendingSummary empty_data None (Some ''2027-01-01'') None = []"
proof -
  have h1: "toLowerCase ''Crypto'' \<notin> category ` set (storedTransactions empty_data None)"
    by (simp add: toLowerCase_crypto MOCK_TRANSACTIONS_def txn_def)
  have h2: "\<forall>t \<in> set (storedTransactions empty_data None).
       \<not> (category t = toLowerCase ''Crypto'' \<and> amount t < 0)"
    by (simp add: toLowerCase_crypto MOCK_TRANSACTIONS_def txn_def)
  have h3: "\<forall>t \<in> set (storedTransactions empty_data None).
       \<not> ((category t = ''income'' \<or> 0 < amount t) \<and>
          within_bounds (Some ''2027-01-01'') None (date t))"
    by (simp add: MOCK_TRANSACTIONS_def txn_def within_bounds_def)
  have h4: "\<forall>t \<in> set (storedTransactions empty_data None).
       \<not> (amount t < 0 \<and> category t \<noteq> ''income'' \<and> category t \<noteq> ''transfer'' \<and>
          within_bounds (Some ''2027-01-01'') None (date t))"
    by (simp add: MOCK_TRANSACTIONS_def txn_def within_bounds_def)
  from h1 h2 h3 h4 empty_results_never_fail [where d = empty_data and userId = None
      and c = "''Crypto''" and startDate = "Some ''2027-01-01''" and endDate = None]
  show ?thesis by blast
qed

section \<open>The category criterion\<close>

lemma getTransactions_category:
  "c \<noteq> [] \<Longrightarrow>
   getTransactions d userId (no_filters\<lparr>f_category := Some c\<rparr>) =
     sort_by dateDesc (filter (\<lambda>t. category t = toLowerCase c) (storedTransactions d userId))"
proof -
  assume c: "c \<noteq> []"
  have m: "matches (no_filters\<lparr>f_category := Some c\<rparr>) = (\<lambda>t. category t = toLowerCase c)"
    using c by (simp add: matches_def no_filters_def truthy_str_def fun_eq_iff)
  have "\<not> truthy_num (f_limit (no_filters\<lparr>f_category := Some c\<rparr>))"
    by (simp add: no_filters_def truthy_num_def)
  then show ?thesis
    by (simp add: getTransactions_no_limit m)
qed

text \<open>
  C8 as stated fails: only the criterion is lower-cased, the stored category is compared as
  it is. A stored category \<open>Groceries\<close> equals the criterion \<open>groceries\<close> up to letter case,
  and the transaction is selected neither by \<^verbatim>\<open>getTransactions\<close> nor by
  \<^verbatim>\<open>getCategorySpending\<close>.
\<close>

theorem stored_category_case_counterexample:
  "toLowerCase ''Groceries'' = toLowerCase ''groceries'' \<and>
   getTransactions
     (cached_data ''u'' [txn ''a'' ''2026-02-01'' (-10) ''Shop'' ''Groceries'' ''acc''])
     (Some ''u'') (no_filters\<lparr>f_category := Some ''groceries''\<rparr>) = [] \<and>
   getCategorySpending
     (cached_data ''u'' [txn ''a'' ''2026-02-01'' (-10) ''Shop'' ''Groceries'' ''acc''])
     (Some ''u'') (Some ''groceries'') = Inr empty_spending"
  by (simp add: getTransactions_category getCategorySpending_filter storedTransactions_cached
      toLowerCase_def lower_char_def txn_def empty_spending_def)

text \<open>
  C8 (amended). The category criterion of \<^verbatim>\<open>getTransactions\<close> (when it is a non-empty
  string) and the category argument of \<^verbatim>\<open>getCategorySpending\<close> select a transaction if
  and only if its stored category equals the lower-cased criterion (for
  \<^verbatim>\<open>getCategorySpending\<close>, and its amount is negative). Hence a transaction whose stored
  category is in lower case, as every category of the enumeration is, is selected if and
  only if its category equals the criterion up to letter case, and two criteria that differ
  only in letter case select the same transactions.
\<close>

theorem category_match_lowercased_criterion:
  assumes "c \<noteq> []"
  shows
    "set (getTransactions d userId (no_filters\<lparr>f_category := Some c\<rparr>)) =
       {t \<in> set (storedTransactions d userId). category t = toLowerCase c} \<and>
     (\<exists>r. getCategorySpending d userId (Some c) = Inr r \<and>
          set (r_transactions r) =
            {t \<in> set (storedTransactions d userId). category t = toLowerCase c \<and> amount t < 0}) \<and>
     (\<forall>t \<in> set (storedTransactions d userId).
        toLowerCase (category t) = category t \<longrightarrow>
          (t \<in> set (getTransactions d userId (no_filters\<lparr>f_category := Some c\<rparr>)) \<longleftrightarrow>
             toLowerCase (category t) = toLowerCase c)) \<and>
     (toLowerCase c' = toLowerCase c \<longrightarrow>
        getTransactions d userId (no_filters\<lparr>f_category := Some c'\<rparr>) =
          getTransactions d userId (no_filters\<lparr>f_category := Some c\<rparr>) \<and>
        getCategorySpending d userId (Some c') = getCategorySpending d userId (Some c))"
proof -
  have g: "set (getTransactions d userId (no_filters\<lparr>f_category := Some c\<rparr>)) =
       {t \<in> set (storedTransactions d userId). category t = toLowerCase c}"
    by (auto simp: getTransactions_category [OF assms] set_sort_by)
  have s: "\<exists>r. getCategorySpending d userId (Some c) = Inr r \<and>
          set (r_transactions r) =
            {t \<in> set (storedTransactions d userId). category t = toLowerCase c \<and> amount t < 0}"
    by (auto simp: getCategorySpending_filter Let_def set_sort_by)
  have l: "\<forall>t \<in> set (storedTransactions d userId).
        toLowerCase (category t) = category t \<longrightarrow>
          (t \<in> set (getTransactions d userId (no_filters\<lparr>f_category := Some c\<rparr>)) \<longleftrightarrow>
             toLowerCase (category t) = toLowerCase c)"
    unfolding g by auto
  have v: "getTransactions d userId (no_filters\<lparr>f_category := Some c'\<rparr>) =
          getTransactions d userId (no_filters\<lparr>f_category := Some c\<rparr>) \<and>
        getCategorySpending d userId (Some c') = getCategorySpending d userId (Some c)"
    if eq: "toLowerCase c' = toLowerCase c"
  proof -
    have "c' \<noteq> []"
      using assms eq by (auto simp: toLowerCase_def)
    then show ?thesis
      by (simp add: getTransactions_category assms getCategorySpending_filter eq)
  qed
  from g s l v show ?thesis by blast
qed

theorem category_match_lowercased_criterion_witness:
  "''GROCERIES'' \<noteq> [] \<and> toLowerCase ''groceries'' = toLowerCase ''GROCERIES'' \<and>
   getTransactions empty_data None (no_filters\<lparr>f_category := Some ''groceries''\<rparr>) =
     getTransactions empty_data None (no_filters\<lparr>f_category := Some ''GROCERIES''\<rparr>) \<and>
   set (getTransactions empty_data None (no_filters\<lparr>f_category := Some ''GROCERIES''\<rparr>)) =
     {t \<in> set (storedTransactions empty_data None). category t = toLowerCase ''GROCERIES''}"
proof -
  have h1: "''GROCERIES'' \<noteq> []" by simp
  have h2: "toLowerCase ''groceries'' = toLowerCase ''GROCERIES''"
    by (simp add: toLowerCase_def lower_char_def)
  from h1 h2 category_match_lowercased_criterion [OF h1, of empty_data None "''groceries''"]
  show ?thesis by blast
qed

section \<open>The canned dataset\<close>









section \<open>Frame properties of the store\<close>











section \<open>The store functions compute what the value functions compute\<close>

lemma deref_Some_valid: "deref proj h r = Some x \<Longrightarrow> r < length h"
  by (simp add: deref_def split: if_splits)

lemma deref_append: "r < length h \<Longrightarrow> deref proj (h @ zs) r = deref proj h r"
  by (simp add: deref_def nth_append)

lemma map_deref_append:
  "map (deref proj h) rs = map Some ys \<Longrightarrow> map (deref proj (h @ zs)) rs = map Some ys"
proof (induction rs arbitrary: ys)
  case Nil
  then show ?case by simp
next
  case (Cons r rs)
  then obtain y ys' where ys: "ys = y # ys'" "deref proj h r = Some y"
    "map (deref proj h) rs = map Some ys'"
    by (cases ys) auto
  from ys(2) have "r < length h" by (rule deref_Some_valid)
  then have "deref proj (h @ zs) r = Some y"
    by (simp add: deref_append ys(2))
  with Cons.IH [OF ys(3)] ys(1) show ?case by simp
qed

lemma holds_alloc:
  assumes "map (deref proj h) rs = map Some ys"
  shows "holds proj (snd (alloc h (Array rs))) (fst (alloc h (Array rs))) ys"
proof -
  have "elems (h @ [Array rs]) (length h) = rs"
    by (simp add: elems_def)
  moreover have "map (deref proj (h @ [Array rs])) rs = map Some ys"
    using assms by (rule map_deref_append)
  ultimately show ?thesis
    by (simp add: holds_def alloc_def)
qed

lemma holds_elems: "holds proj h a xs \<Longrightarrow> map (deref proj h) (elems h a) = map Some xs"
  by (simp add: holds_def)

lemma holds_spread:
  "holds proj h a xs \<Longrightarrow> holds proj (snd (spread h a)) (fst (spread h a)) xs"
  unfolding spread_def by (rule holds_alloc) (rule holds_elems)

lemma filter_map_Some:
  "map f rs = map Some xs \<Longrightarrow>
   map f (filter (\<lambda>r. case f r of Some x \<Rightarrow> p x | None \<Rightarrow> False) rs) = map Some (filter p xs)"
proof (induction rs arbitrary: xs)
  case Nil
  then show ?case by simp
next
  case (Cons r rs)
  then obtain y ys where "xs = y # ys" "f r = Some y" "map f rs = map Some ys"
    by (cases xs) auto
  with Cons.IH [of ys] show ?case by simp
qed

lemma holds_filter_h:
  "holds proj h a xs \<Longrightarrow>
   holds proj (snd (filter_h proj h a p)) (fst (filter_h proj h a p)) (filter p xs)"
  unfolding filter_h_def
  by (rule holds_alloc) (rule filter_map_Some, rule holds_elems)

lemma holds_step:
  "holds proj h a xs \<Longrightarrow>
   holds proj (snd (if c then filter_h proj h a p else (a, h)))
     (fst (if c then filter_h proj h a p else (a, h))) (if c then filter p xs else xs)"
  by (simp add: holds_filter_h)

lemma map_slice0: "map f (slice0 xs n) = slice0 (map f xs) n"
  by (simp add: slice0_def Let_def take_map)

lemma holds_slice_h:
  assumes "holds proj h a xs"
  shows "holds proj (snd (slice_h h a n)) (fst (slice_h h a n)) (slice0 xs n)"
proof -
  have "map (deref proj h) (slice0 (elems h a) n) = slice0 (map (deref proj h) (elems h a)) n"
    by (rule map_slice0)
  also have "\<dots> = map Some (slice0 xs n)"
    by (simp only: holds_elems [OF assms] map_slice0)
  finally show ?thesis
    unfolding slice_h_def by (rule holds_alloc)
qed

lemma map_insort_by:
  "map f (insort_by (\<lambda>x y. c (f x) (f y)) x ys) = insort_by c (f x) (map f ys)"
  by (induction ys) auto

lemma map_sort_by: "map f (sort_by (\<lambda>x y. c (f x) (f y)) xs) = sort_by c (map f xs)"
  by (induction xs) (auto simp: map_insort_by)

lemma holds_sort_h:
  assumes arr: "\<And>rs. proj (Array rs) = None" and hs: "holds proj h a xs"
  shows "holds proj (sort_h proj h a cmp) a (sort_by cmp xs)"
proof -
  let ?c = "\<lambda>u v. case (u, v) of (Some s, Some t) \<Rightarrow> cmp s t | _ \<Rightarrow> (0::int)"
  from hs obtain rs where a: "a < length h" and ha: "h ! a = Array rs"
    by (auto simp: holds_def split: cell.splits)
  then have el: "elems h a = rs" by (simp add: elems_def)
  have m: "map (deref proj h) rs = map Some xs"
    using holds_elems [OF hs] el by simp
  let ?rs' = "sort_by (\<lambda>x y. ?c (deref proj h x) (deref proj h y)) rs"
  let ?h' = "h[a := Array ?rs']"
  have sh: "sort_h proj h a cmp = ?h'"
    using a ha by (simp add: sort_h_def)
  have "map (deref proj h) ?rs' = sort_by ?c (map (deref proj h) rs)"
    by (rule map_sort_by)
  also have "\<dots> = sort_by ?c (map Some xs)" by (simp only: m)
  also have "\<dots> = map Some (sort_by (\<lambda>x y. ?c (Some x) (Some y)) xs)"
    by (rule map_sort_by [symmetric])
  also have "\<dots> = map Some (sort_by cmp xs)" by simp
  finally have s: "map (deref proj h) ?rs' = map Some (sort_by cmp xs)" .
  have "deref proj ?h' r = deref proj h r" if "r \<in> set ?rs'" for r
  proof -
    from that have "r \<in> set rs" by (simp add: set_sort_by)
    then have "deref proj h r \<in> set (map (deref proj h) rs)" by simp
    then have "deref proj h r \<noteq> None" unfolding m by auto
    moreover have "deref proj h a = None"
      using a ha arr by (simp add: deref_def)
    ultimately have "r \<noteq> a" by auto
    then show ?thesis by (simp add: deref_def)
  qed
  then have "map (deref proj ?h') ?rs' = map (deref proj h) ?rs'"
    by (intro map_cong) simp_all
  with s have "map (deref proj ?h') ?rs' = map Some (sort_by cmp xs)" by simp
  moreover have "elems ?h' a = ?rs'"
    using a by (simp add: elems_def)
  ultimately show ?thesis
    unfolding sh using a by (simp add: holds_def)
qed

lemma holds_parse_array:
  assumes "\<And>x. proj (mk x) = Some x"
  shows "holds proj (snd (parse_array mk h xs)) (fst (parse_array mk h xs)) xs"
proof -
  let ?h1 = "h @ map mk xs"
  have "map (deref proj ?h1) [length h ..< length h + length xs] = map Some xs"
  proof (rule nth_equalityI)
    show "length (map (deref proj ?h1) [length h ..< length h + length xs]) =
        length (map Some xs)" by simp
  next
    fix i
    assume "i < length (map (deref proj ?h1) [length h ..< length h + length xs])"
    then have i: "i < length xs" by simp
    then have "deref proj ?h1 (length h + i) = Some (xs ! i)"
      by (simp add: deref_def nth_append assms)
    with i show "map (deref proj ?h1) [length h ..< length h + length xs] ! i =
        map Some xs ! i" by simp
  qed
  then have "holds proj (snd (alloc ?h1 (Array [length h ..< length h + length xs])))
      (fst (alloc ?h1 (Array [length h ..< length h + length xs]))) xs"
    by (rule holds_alloc)
  then show ?thesis by (simp add: parse_array_def)
qed

lemma holds_contents: "holds proj h a xs \<Longrightarrow> contents proj h a = xs"
proof -
  assume "holds proj h a xs"
  then have m: "map (deref proj h) (elems h a) = map Some xs" by (rule holds_elems)
  have "List.map_filter f rs = ys" if "map f rs = map Some ys" for f :: "addr \<Rightarrow> 'a option"
    and rs ys
    using that
  proof (induction rs arbitrary: ys)
    case Nil
    then show ?case by simp
  next
    case (Cons r rs)
    then obtain z zs where "ys = z # zs" "f r = Some z" "map f rs = map Some zs"
      by (cases ys) auto
    with Cons.IH [of zs] show ?case by simp
  qed
  from this [OF m] show ?thesis by (simp add: contents_def)
qed

lemma the_txn_Array [simp]: "the_txn (Array rs) = None"
  by (simp add: the_txn_def)

lemma the_txn_TxnObj [simp]: "the_txn (TxnObj t) = Some t"
  by (simp add: the_txn_def)

lemma the_acc_AccObj [simp]: "the_acc (AccObj a) = Some a"
  by (simp add: the_acc_def)

lemma holds_getAccounts_h:
  assumes "holds the_acc h (mock_accs m) MOCK_ACCOUNTS"
  shows "holds the_acc (snd (getAccounts_h d m h userId)) (fst (getAccounts_h d m h userId))
    (getAccounts d userId)"
  using assms
  by (auto simp: getAccounts_h_def getAccounts_def Let_def holds_spread
      intro!: holds_parse_array split: option.splits)

lemma holds_stepI:
  "holds proj h a xs \<Longrightarrow> (if c then filter_h proj h a p else (a, h)) = (a', h') \<Longrightarrow>
   holds proj h' a' (if c then filter p xs else xs)"
  using holds_step [of proj h a xs c p] by simp

lemma holds_getTransactions_h:
  assumes mock: "holds the_txn h (mock_txns m) MOCK_TRANSACTIONS"
  shows "holds the_txn (snd (getTransactions_h d m h userId flt))
    (fst (getTransactions_h d m h userId flt)) (getTransactions d userId flt)"
proof -
  let ?cached = "if truthy_str userId then getCachedTransactions d (the userId) else None"
  define t0 where "t0 = (case ?cached of Some c \<Rightarrow> transactions c | None \<Rightarrow> MOCK_TRANSACTIONS)"
  define t1 where "t1 = (if truthy_str (f_category flt)
      then filter (\<lambda>t. category t = toLowerCase (the (f_category flt))) t0 else t0)"
  define t2 where "t2 = (if truthy_str (f_merchant flt)
      then filter (\<lambda>t. str_includes (toLowerCase (merchant t))
                          (toLowerCase (the (f_merchant flt)))) t1 else t1)"
  define t3 where "t3 = (if truthy_str (f_startDate flt)
      then filter (\<lambda>t. date t \<ge> the (f_startDate flt)) t2 else t2)"
  define t4 where "t4 = (if truthy_str (f_endDate flt)
      then filter (\<lambda>t. date t \<le> the (f_endDate flt)) t3 else t3)"
  define t5 where "t5 = (if f_minAmount flt \<noteq> None
      then filter (\<lambda>t. amount t \<ge> the (f_minAmount flt)) t4 else t4)"
  define t6 where "t6 = (if f_maxAmount flt \<noteq> None
      then filter (\<lambda>t. amount t \<le> the (f_maxAmount flt)) t5 else t5)"
  define t7 where "t7 = (if truthy_str (f_account flt)
      then filter (\<lambda>t. str_includes (toLowerCase (account t))
                          (toLowerCase (the (f_account flt)))) t6 else t6)"
  define t8 where "t8 = sort_by (\<lambda>a b. localeCompare (date b) (date a)) t7"
  have pure: "getTransactions d userId flt =
      (if truthy_num (f_limit flt) then slice0 t8 (the (f_limit flt)) else t8)"
    unfolding getTransactions_def Let_def t8_def t7_def t6_def t5_def t4_def t3_def t2_def
      t1_def t0_def
    by (rule refl)
  obtain a0 h0 where s0: "(case ?cached of
      Some c \<Rightarrow> (case parse_array TxnObj h (transactions c) of (p, hp) \<Rightarrow> spread hp p)
    | None \<Rightarrow> spread h (mock_txns m)) = (a0, h0)"
    by (rule prod.exhaust)
  have k0: "holds the_txn h0 a0 t0"
  proof (cases ?cached)
    case None
    with s0 have "spread h (mock_txns m) = (a0, h0)" by simp
    with holds_spread [OF mock] None show ?thesis by (simp add: t0_def)
  next
    case (Some c)
    obtain p hp where p: "parse_array TxnObj h (transactions c) = (p, hp)"
      by (rule prod.exhaust)
    have "holds the_txn hp p (transactions c)"
      using holds_parse_array [of the_txn TxnObj h "transactions c"] by (simp add: p)
    then have "holds the_txn (snd (spread hp p)) (fst (spread hp p)) (transactions c)"
      by (rule holds_spread)
    moreover from s0 Some p have "spread hp p = (a0, h0)" by simp
    ultimately show ?thesis using Some by (simp add: t0_def)
  qed
  obtain a1 h1 where s1: "(if truthy_str (f_category flt)
            then filter_h the_txn h0 a0 (\<lambda>t. category t = toLowerCase (the (f_category flt)))
            else (a0, h0)) = (a1, h1)"
    by (rule prod.exhaust)
  have k1: "holds the_txn h1 a1 t1"
    unfolding t1_def by (rule holds_stepI [OF k0 s1])
  obtain a2 h2 where s2: "(if truthy_str (f_merchant flt)
            then filter_h the_txn h1 a1 (\<lambda>t. str_includes (toLowerCase (merchant t))
                                               (toLowerCase (the (f_merchant flt))))
            else (a1, h1)) = (a2, h2)"
    by (rule prod.exhaust)
  have k2: "holds the_txn h2 a2 t2"
    unfolding t2_def by (rule holds_stepI [OF k1 s2])
  obtain a3 h3 where s3: "(if truthy_str (f_startDate flt)
            then filter_h the_txn h2 a2 (\<lambda>t. date t \<ge> the (f_startDate flt))
            else (a2, h2)) = (a3, h3)"
    by (rule prod.exhaust)
  have k3: "holds the_txn h3 a3 t3"
    unfolding t3_def by (rule holds_stepI [OF k2 s3])
  obtain a4 h4 where s4: "(if truthy_str (f_endDate flt)
            then filter_h the_txn h3 a3 (\<lambda>t. date t \<le> the (f_endDate flt))
            else (a3, h3)) = (a4, h4)"
    by (rule prod.exhaust)
  have k4: "holds the_txn h4 a4 t4"
    unfolding t4_def by (rule holds_stepI [OF k3 s4])
  obtain a5 h5 where s5: "(if f_minAmount flt \<noteq> None
            then filter_h the_txn h4 a4 (\<lambda>t. amount t \<ge> the (f_minAmount flt))
            else (a4, h4)) = (a5, h5)"
    by (rule prod.exhaust)
  have k5: "holds the_txn h5 a5 t5"
    unfolding t5_def by (rule holds_stepI [OF k4 s5])
  obtain a6 h6 where s6: "(if f_maxAmount flt \<noteq> None
            then filter_h the_txn h5 a5 (\<lambda>t. amount t \<le> the (f_maxAmount flt))
            else (a5, h5)) = (a6, h6)"
    by (rule prod.exhaust)
  have k6: "holds the_txn h6 a6 t6"
    unfolding t6_def by (rule holds_stepI [OF k5 s6])
  obtain a7 h7 where s7: "(if truthy_str (f_account flt)
            then filter_h the_txn h6 a6 (\<lambda>t. str_includes (toLowerCase (account t))
                                               (toLowerCase (the (f_account flt))))
            else (a6, h6)) = (a7, h7)"
    by (rule prod.exhaust)
  have k7: "holds the_txn h7 a7 t7"
    unfolding t7_def by (rule holds_stepI [OF k6 s7])
  let ?h8 = "sort_h the_txn h7 a7 (\<lambda>a b. localeCompare (date b) (date a))"
  have k8: "holds the_txn ?h8 a7 t8"
    unfolding t8_def using k7 by (intro holds_sort_h) simp_all
  have k9: "holds the_txn
      (snd (if truthy_num (f_limit flt) then slice_h ?h8 a7 (the (f_limit flt)) else (a7, ?h8)))
      (fst (if truthy_num (f_limit flt) then slice_h ?h8 a7 (the (f_limit flt)) else (a7, ?h8)))
      (if truthy_num (f_limit flt) then slice0 t8 (the (f_limit flt)) else t8)"
    using k8 by (simp add: holds_slice_h)
  show ?thesis
    unfolding pure
    unfolding getTransactions_h_def Let_def s0 prod.case s1 s2 s3 s4 s5 s6 s7
    by (rule k9)
qed

section \<open>The engine operations on the store\<close>








lemma holds_filterI:
  "holds proj h a xs \<Longrightarrow> filter_h proj h a p = (a', h') \<Longrightarrow> holds proj h' a' (filter p xs)"
  using holds_filter_h [of proj h a xs p] by simp

lemma holds_append: "holds proj h a xs \<Longrightarrow> holds proj (h @ zs) a xs"
proof -
  assume hs: "holds proj h a xs"
  then have a: "a < length h" by (simp add: holds_def)
  then have el: "elems (h @ zs) a = elems h a"
    by (simp add: elems_def nth_append)
  have "map (deref proj (h @ zs)) (elems h a) = map Some xs"
    using holds_elems [OF hs] by (rule map_deref_append)
  with hs a el show ?thesis
    by (simp add: holds_def nth_append)
qed

lemma holds_length: "holds proj h a xs \<Longrightarrow> length (elems h a) = length xs"
  using holds_elems [of proj h a xs] map_eq_imp_length_eq by fastforce

lemma getSpendingSummary_h_value:
  assumes mock: "holds the_txn h (mock_txns m) MOCK_TRANSACTIONS"
  shows "fst (getSpendingSummary_h d m h userId startDate endDate) =
    getSpendingSummary d userId startDate endDate"
proof -
  obtain a h1 where s: "getTransactions_h d m h userId no_filters = (a, h1)"
    by (rule prod.exhaust)
  have k: "holds the_txn h1 a (getTransactions d userId no_filters)"
    using holds_getTransactions_h [OF mock, of d userId no_filters] by (simp add: s)
  obtain a0 h2 where s0: "filter_h the_txn h1 a
      (\<lambda>t. amount t < 0 \<and> category t \<noteq> ''income'' \<and> category t \<noteq> ''transfer'') = (a0, h2)"
    by (rule prod.exhaust)
  note k0 = holds_filterI [OF k s0]
  obtain a1 h3 where s1: "(if truthy_str startDate
      then filter_h the_txn h2 a0 (\<lambda>t. date t \<ge> the startDate) else (a0, h2)) = (a1, h3)"
    by (rule prod.exhaust)
  note k1 = holds_stepI [OF k0 s1]
  obtain a2 h4 where s2: "(if truthy_str endDate
      then filter_h the_txn h3 a1 (\<lambda>t. date t \<le> the endDate) else (a1, h3)) = (a2, h4)"
    by (rule prod.exhaust)
  note k2 = holds_stepI [OF k1 s2]
  show ?thesis
    unfolding getSpendingSummary_h_def s prod.case s0 s1 s2 getSpendingSummary_def Let_def
      fst_conv holds_contents [OF k2]
    by (rule refl)
qed

lemma getIncomeSummary_h_value:
  assumes mock: "holds the_txn h (mock_txns m) MOCK_TRANSACTIONS"
  shows "(case getIncomeSummary_h d m h userId startDate endDate of (r, h') \<Rightarrow>
      \<lparr>total = total r, count = count r, r_transactions = contents the_txn h' (r_array r)\<rparr>) =
    getIncomeSummary d userId startDate endDate"
proof -
  obtain a h1 where s: "getTransactions_h d m h userId no_filters = (a, h1)"
    by (rule prod.exhaust)
  have k: "holds the_txn h1 a (getTransactions d userId no_filters)"
    using holds_getTransactions_h [OF mock, of d userId no_filters] by (simp add: s)
  obtain a0 h2 where s0: "filter_h the_txn h1 a
      (\<lambda>t. category t = ''income'' \<or> amount t > 0) = (a0, h2)"
    by (rule prod.exhaust)
  note k0 = holds_filterI [OF k s0]
  obtain a1 h3 where s1: "(if truthy_str startDate
      then filter_h the_txn h2 a0 (\<lambda>t. date t \<ge> the startDate) else (a0, h2)) = (a1, h3)"
    by (rule prod.exhaust)
  note k1 = holds_stepI [OF k0 s1]
  obtain a2 h4 where s2: "(if truthy_str endDate
      then filter_h the_txn h3 a1 (\<lambda>t. date t \<le> the endDate) else (a1, h3)) = (a2, h4)"
    by (rule prod.exhaust)
  note k2 = holds_stepI [OF k1 s2]
  show ?thesis
    unfolding getIncomeSummary_h_def s prod.case s0 s1 s2 getIncomeSummary_def Let_def
    by (simp add: holds_contents [OF k2] holds_length [OF k2])
qed

lemma getCategorySpending_h_value:
  assumes mock: "holds the_txn h (mock_txns m) MOCK_TRANSACTIONS"
  shows "(case getCategorySpending_h d m h userId cat of
        (Inl e, h') \<Rightarrow> Inl e
      | (Inr r, h') \<Rightarrow> Inr \<lparr>total = total r, count = count r,
                             r_transactions = contents the_txn h' (r_array r)\<rparr>) =
    getCategorySpending d userId cat"
proof -
  obtain a h1 where s: "getTransactions_h d m h userId no_filters = (a, h1)"
    by (rule prod.exhaust)
  have k: "holds the_txn h1 a (getTransactions d userId no_filters)"
    using holds_getTransactions_h [OF mock, of d userId no_filters] by (simp add: s)
  have e: "elems h1 a = [] \<longleftrightarrow> getTransactions d userId no_filters = []"
    using holds_length [OF k] by auto
  obtain a0 h2 where s0: "filter_h the_txn h1 a
      (\<lambda>t. category t = toLowerCase (the cat) \<and> amount t < 0) = (a0, h2)"
    by (rule prod.exhaust)
  note k0 = holds_filterI [OF k s0]
  show ?thesis
  proof (cases cat)
    case None
    show ?thesis
    proof (cases "getTransactions d userId no_filters = []")
      case True
      with k0 have "holds the_txn h2 a0 []" by simp
      from holds_contents [OF this] holds_length [OF this] True None e show ?thesis
        unfolding getCategorySpending_h_def s prod.case s0 getCategorySpending_def Let_def
        by simp
    next
      case False
      with None e show ?thesis
        unfolding getCategorySpending_h_def s prod.case s0 getCategorySpending_def Let_def
        by simp
    qed
  next
    case (Some c)
    with holds_contents [OF k0] holds_length [OF k0] show ?thesis
      unfolding getCategorySpending_h_def s prod.case s0 getCategorySpending_def Let_def
      by simp
  qed
qed

lemma getTotalBalance_h_value:
  assumes mock: "holds the_acc h (mock_accs m) MOCK_ACCOUNTS"
  shows "fst (getTotalBalance_h d m h userId) = getTotalBalance d userId"
proof -
  obtain a h1 where s: "getAccounts_h d m h userId = (a, h1)"
    by (rule prod.exhaust)
  have k: "holds the_acc h1 a (getAccounts d userId)"
    using holds_getAccounts_h [OF mock, of d userId] by (simp add: s)
  obtain a1 h2 where s1: "filter_h the_acc h1 a
      (\<lambda>a. acc_type a = ''checking'' \<or> acc_type a = ''depository'') = (a1, h2)"
    by (rule prod.exhaust)
  note k1 = holds_filterI [OF k s1]
  from s1 have "h2 = h1 @ [h2 ! length h1]"
    by (auto simp: filter_h_def alloc_def)
  then have k': "holds the_acc h2 a (getAccounts d userId)"
    using holds_append [OF k] by metis
  obtain a2 h3 where s2: "filter_h the_acc h2 a (\<lambda>a. acc_type a = ''credit'') = (a2, h3)"
    by (rule prod.exhaust)
  note k2 = holds_filterI [OF k' s2]
  show ?thesis
    unfolding getTotalBalance_h_def s prod.case s1 s2 getTotalBalance_def Let_def
      fst_conv holds_contents [OF k1] holds_contents [OF k2]
    by (rule refl)
qed

section \<open>Returned sequences are copies\<close>









text \<open>
  The copy of a canned dataset is shallow: the new array holds the addresses the canned
  array holds, so that the element objects are shared. The theorem above is about the
  sequences.
\<close>

lemma canned_copy_is_shallow:
  "elems (snd (getAccounts_h d m h None)) (fst (getAccounts_h d m h None)) =
     elems h (mock_accs m)"
  by (simp add: getAccounts_h_def truthy_str_def spread_def alloc_def elems_def)

end
